theory Spec2Isabelle
  imports Main "HOL-Library.Word"
begin

unbundle bit_operations_syntax

section \<open>Python strings\<close>

text \<open>
  A Python \<^verbatim>\<open>str\<close> is modelled by a HOL \<^typ>\<open>string\<close>, one \<^typ>\<open>char\<close> per code point.
  HOL characters are the code points 0..255: every character of an HTTP header value
  (the HTTP library decodes header lines as ISO-8859-1) and of an ASCII URL is one of
  them. A \<^verbatim>\<open>bytes\<close> object is a list of 8-bit words.
\<close>

type_synonym bytes = "8 word list"

definition py_isspace :: "char \<Rightarrow> bool" where
  \<comment> \<open>\<^verbatim>\<open>c.isspace()\<close> on the code points below 256: TAB, LF, VT, FF, CR, FS, GS, RS, US,
      SPACE, NEL (0x85) and NBSP (0xA0).\<close>
  "py_isspace c =
     (let n = (of_char c :: nat)
      in (9 \<le> n \<and> n \<le> 13) \<or> (28 \<le> n \<and> n \<le> 32) \<or> n = 133 \<or> n = 160)"

definition py_strip :: "string \<Rightarrow> string" where
  \<comment> \<open>\<^verbatim>\<open>s.strip()\<close>: skip whitespace from the left, then from the right, and slice.\<close>
  "py_strip s = rev (dropWhile py_isspace (rev (dropWhile py_isspace s)))"

function py_split :: "char \<Rightarrow> string \<Rightarrow> string list" where
  \<comment> \<open>\<^verbatim>\<open>s.split(sep)\<close> for a one-character separator: find the next separator, cut the
      piece before it, go on behind it; the rest after the last separator is the last
      piece.\<close>
  "py_split sep s =
     (case dropWhile (\<lambda>c. c \<noteq> sep) s of
        [] \<Rightarrow> [s]
      | _ # rest \<Rightarrow> takeWhile (\<lambda>c. c \<noteq> sep) s # py_split sep rest)"
  by pat_completeness auto
termination
proof (relation "measure (\<lambda>(sep, s). length s)")
  show "wf (measure (\<lambda>(sep, s). length s))" by simp
next
  fix sep :: char and s :: string and x rest
  assume "dropWhile (\<lambda>c. c \<noteq> sep) s = x # rest"
  then have "length (x # rest) \<le> length s"
    using length_dropWhile_le [of "\<lambda>c. c \<noteq> sep" s] by simp
  then show "((sep, rest), (sep, s)) \<in> measure (\<lambda>(sep, s). length s)" by simp
qed

declare py_split.simps [simp del]

definition py_startswith :: "string \<Rightarrow> string \<Rightarrow> bool" where
  \<comment> \<open>\<^verbatim>\<open>s.startswith(prefix)\<close>\<close>
  "py_startswith s prefix = (take (length prefix) s = prefix)"

definition py_lower_char :: "char \<Rightarrow> char" where
  \<comment> \<open>\<^verbatim>\<open>c.lower()\<close> on the code points below 256: A..Z and the capital letters
      0xC0..0xDE except the multiplication sign 0xD7 move up by 32.\<close>
  "py_lower_char c =
     (let n = (of_char c :: nat)
      in if (65 \<le> n \<and> n \<le> 90) \<or> (192 \<le> n \<and> n \<le> 222 \<and> n \<noteq> 215)
         then char_of (n + 32) else c)"

definition py_lower :: "string \<Rightarrow> string" where
  "py_lower s = map py_lower_char s"

section \<open>Exceptions\<close>

text \<open>
  The exceptions of class \<^verbatim>\<open>Exception\<close>, sorted the way the handlers of
  \<^verbatim>\<open>download_image\<close> tell them apart, each with the text of \<^verbatim>\<open>str(e)\<close>. The texts of
  exceptions raised inside library calls are abbreviated.
\<close>

datatype exn =
    RequestException string
  | ValueError string
  | OtherException string

text \<open>
  \<^const>\<open>RequestException\<close> stands for \<^verbatim>\<open>requests.exceptions.RequestException\<close> and its
  subclasses, \<^const>\<open>ValueError\<close> for \<^verbatim>\<open>ValueError\<close> and its subclasses outside
  \<^verbatim>\<open>RequestException\<close>, and \<^const>\<open>OtherException\<close> for every other subclass of
  \<^verbatim>\<open>Exception\<close>, \<^verbatim>\<open>OSError\<close> among them.
\<close>

section \<open>Conversion of a string to an integer\<close>

definition is_digit :: "char \<Rightarrow> bool" where
  "is_digit c = (let n = (of_char c :: nat) in 48 \<le> n \<and> n \<le> 57)"

definition is_ascii_space :: "char \<Rightarrow> bool" where
  \<comment> \<open>TAB, LF, VT, FF, CR and SPACE\<close>
  "is_ascii_space c = (let n = (of_char c :: nat) in (9 \<le> n \<and> n \<le> 13) \<or> n = 32)"

definition digit_value :: "char \<Rightarrow> int" where
  "digit_value c = int (of_char c) - 48"

fun underscores_ok :: "string \<Rightarrow> bool" where
  \<comment> \<open>a non-empty run of digits, where single underscores may stand between two digits\<close>
  "underscores_ok [] = False"
| "underscores_ok [c] = is_digit c"
| "underscores_ok (c # d # cs) =
     (is_digit c \<and> (if d = CHR ''_'' then underscores_ok cs else underscores_ok (d # cs)))"

definition py_int :: "string \<Rightarrow> exn + int" where
  \<comment> \<open>\<^verbatim>\<open>int(s)\<close> for a \<^verbatim>\<open>str\<close> of code points below 256, as CPython 3.11 does it: NEL and
      NBSP count as spaces; ASCII whitespace around the number is skipped; one sign may
      precede the digits; more than 4300 digits are refused.\<close>
  "py_int s =
     (let t = dropWhile is_ascii_space
                (map (\<lambda>c. if of_char c = (133::nat) \<or> of_char c = (160::nat)
                          then CHR '' '' else c) s);
          negative = (t \<noteq> [] \<and> hd t = CHR ''-'');
          u = (if t \<noteq> [] \<and> (hd t = CHR ''+'' \<or> hd t = CHR ''-'') then tl t else t);
          body = takeWhile (\<lambda>c. is_digit c \<or> c = CHR ''_'') u;
          trailing = dropWhile (\<lambda>c. is_digit c \<or> c = CHR ''_'') u;
          digits = filter is_digit body
      in if \<not> underscores_ok body
         then Inl (ValueError ''invalid literal for int() with base 10'')
         else if length digits > 4300
         then Inl (ValueError ''Exceeds the limit (4300 digits) for integer string conversion'')
         else if dropWhile is_ascii_space trailing \<noteq> []
         then Inl (ValueError ''invalid literal for int() with base 10'')
         else Inr ((if negative then - 1 else 1)
                     * foldl (\<lambda>a c. 10 * a + digit_value c) 0 digits))"

section \<open>UTF-8 and MD5\<close>

definition utf8_encode :: "string \<Rightarrow> bytes" where
  \<comment> \<open>\<^verbatim>\<open>s.encode()\<close>: one byte below 128, two bytes from 128 to 255\<close>
  "utf8_encode s =
     concat (map (\<lambda>c. let n = (of_char c :: nat)
                      in if n < 128 then [of_nat n]
                         else [of_nat (192 + n div 64), of_nat (128 + n mod 64)]) s)"

definition md5_shifts :: "nat list" where
  "md5_shifts =
     [7, 12, 17, 22, 7, 12, 17, 22, 7, 12, 17, 22, 7, 12, 17, 22,
      5, 9, 14, 20, 5, 9, 14, 20, 5, 9, 14, 20, 5, 9, 14, 20,
      4, 11, 16, 23, 4, 11, 16, 23, 4, 11, 16, 23, 4, 11, 16, 23,
      6, 10, 15, 21, 6, 10, 15, 21, 6, 10, 15, 21, 6, 10, 15, 21]"

definition md5_sines :: "32 word list" where
  \<comment> \<open>\<^verbatim>\<open>floor(2^32 * abs(sin(i + 1)))\<close> for i from 0 to 63\<close>
  "md5_sines =
     [0xd76aa478, 0xe8c7b756, 0x242070db, 0xc1bdceee, 0xf57c0faf, 0x4787c62a, 0xa8304613,
      0xfd469501, 0x698098d8, 0x8b44f7af, 0xffff5bb1, 0x895cd7be, 0x6b901122, 0xfd987193,
      0xa679438e, 0x49b40821, 0xf61e2562, 0xc040b340, 0x265e5a51, 0xe9b6c7aa, 0xd62f105d,
      0x02441453, 0xd8a1e681, 0xe7d3fbc8, 0x21e1cde6, 0xc33707d6, 0xf4d50d87, 0x455a14ed,
      0xa9e3e905, 0xfcefa3f8, 0x676f02d9, 0x8d2a4c8a, 0xfffa3942, 0x8771f681, 0x6d9d6122,
      0xfde5380c, 0xa4beea44, 0x4bdecfa9, 0xf6bb4b60, 0xbebfbc70, 0x289b7ec6, 0xeaa127fa,
      0xd4ef3085, 0x04881d05, 0xd9d4d039, 0xe6db99e5, 0x1fa27cf8, 0xc4ac5665, 0xf4292244,
      0x432aff97, 0xab9423a7, 0xfc93a039, 0x655b59c3, 0x8f0ccc92, 0xffeff47d, 0x85845dd1,
      0x6fa87e4f, 0xfe2ce6e0, 0xa3014314, 0x4e0811a1, 0xf7537e82, 0xbd3af235, 0x2ad7d2bb,
      0xeb86d391]"

type_synonym md5_state = "32 word \<times> 32 word \<times> 32 word \<times> 32 word"

definition rotate_left :: "32 word \<Rightarrow> nat \<Rightarrow> 32 word" where
  "rotate_left x n = push_bit n x OR drop_bit (32 - n) x"

definition md5_pad :: "bytes \<Rightarrow> bytes" where
  \<comment> \<open>the message, the byte 0x80, zero bytes up to 56 modulo 64, and the length of the
      message in bits as eight bytes, lowest byte first\<close>
  "md5_pad m =
     (let n = length m;
          zeros = (55 + 64 - n mod 64) mod 64;
          bits = (of_nat (8 * n) :: 64 word)
      in m @ [0x80] @ replicate zeros 0 @ map (\<lambda>i. ucast (drop_bit (8 * i) bits)) [0..<8])"

fun md5_words :: "bytes \<Rightarrow> 32 word list" where
  \<comment> \<open>32-bit words of four bytes each, lowest byte first\<close>
  "md5_words (a # b # c # d # rest) =
     (ucast a OR push_bit 8 (ucast b) OR push_bit 16 (ucast c) OR push_bit 24 (ucast d))
       # md5_words rest"
| "md5_words _ = []"

fun md5_blocks :: "32 word list \<Rightarrow> 32 word list list" where
  "md5_blocks ws = (if length ws < 16 then [] else take 16 ws # md5_blocks (drop 16 ws))"

declare md5_blocks.simps [simp del]

definition md5_step :: "32 word list \<Rightarrow> md5_state \<Rightarrow> nat \<Rightarrow> md5_state" where
  "md5_step M st i =
     (case st of (a, b, c, d) \<Rightarrow>
        let (f, g) =
              (if i < 16 then ((b AND c) OR (NOT b AND d), i)
               else if i < 32 then ((d AND b) OR (NOT d AND c), (5 * i + 1) mod 16)
               else if i < 48 then (b XOR c XOR d, (3 * i + 5) mod 16)
               else (c XOR (b OR NOT d), (7 * i) mod 16))
        in (d, b + rotate_left (f + a + md5_sines ! i + M ! g) (md5_shifts ! i), b, c))"

definition md5_block :: "md5_state \<Rightarrow> 32 word list \<Rightarrow> md5_state" where
  "md5_block st M =
     (case st of (a0, b0, c0, d0) \<Rightarrow>
        case foldl (md5_step M) st [0..<64] of
          (a, b, c, d) \<Rightarrow> (a0 + a, b0 + b, c0 + c, d0 + d))"

definition hex_digit :: "nat \<Rightarrow> char" where
  "hex_digit n = (if n < 10 then char_of (48 + n) else char_of (87 + n))"

definition hex_byte :: "8 word \<Rightarrow> string" where
  "hex_byte b = [hex_digit (unat b div 16), hex_digit (unat b mod 16)]"

definition word_bytes :: "32 word \<Rightarrow> bytes" where
  "word_bytes w = map (\<lambda>i. ucast (drop_bit (8 * i) w)) [0..<4]"

definition md5_hexdigest :: "bytes \<Rightarrow> string" where
  \<comment> \<open>\<^verbatim>\<open>hashlib.md5(m).hexdigest()\<close>\<close>
  "md5_hexdigest m =
     (case foldl md5_block (0x67452301, 0xefcdab89, 0x98badcfe, 0x10325476)
             (md5_blocks (md5_words (md5_pad m))) of
        (a, b, c, d) \<Rightarrow> concat (map hex_byte (concat (map word_bytes [a, b, c, d]))))"

section \<open>POSIX paths\<close>

definition basename :: "string \<Rightarrow> string" where
  \<comment> \<open>\<^verbatim>\<open>os.path.basename(p)\<close>: \<^verbatim>\<open>p[p.rfind('/') + 1:]\<close>\<close>
  "basename p = rev (takeWhile (\<lambda>c. c \<noteq> CHR ''/'') (rev p))"

definition os_path_join :: "string \<Rightarrow> string \<Rightarrow> string" where
  \<comment> \<open>\<^verbatim>\<open>os.path.join(a, b)\<close>\<close>
  "os_path_join a b =
     (if py_startswith b ''/'' then b
      else if a = [] \<or> last a = CHR ''/'' then a @ b
      else a @ ''/'' @ b)"

section \<open>Responses, the world and its environment\<close>

record response =
  status_code :: nat
  headers :: "string \<rightharpoonup> string"
  chunks :: "bytes list"
  stream_error :: "exn option"

text \<open>
  \<^const>\<open>headers\<close> is the store of the case-insensitive dictionary, from lower-cased header
  names to values; \<^const>\<open>chunks\<close> is what \<^verbatim>\<open>iter_content(chunk_size=8192)\<close> yields, and
  \<^const>\<open>stream_error\<close> the exception that ends the iteration after these chunks when the
  transfer breaks.
\<close>

definition headers_get :: "response \<Rightarrow> string \<Rightarrow> string option" where
  \<comment> \<open>\<^verbatim>\<open>response.headers.get(key)\<close>\<close>
  "headers_get response key = headers response (py_lower key)"

definition raise_for_status :: "response \<Rightarrow> exn + unit" where
  \<comment> \<open>\<^verbatim>\<open>response.raise_for_status()\<close>: an \<^verbatim>\<open>HTTPError\<close> for the status codes 400 to 599\<close>
  "raise_for_status response =
     (if 400 \<le> status_code response \<and> status_code response < 600
      then Inl (RequestException ''HTTPError'') else Inr ())"

datatype entry = File bytes | Dir

datatype os_call = Makedirs string | Open string | Write string bytes

datatype line =
    Welcome
  | Tagline
  | Prompt
  | NoValidUrls
  | FetchingImages
  | ConnectionStrengthened
  | SkippingDuplicate string
  | SuccessfullyFetched string
  | ImageSavedTo string
  | ConnectionError string string
  | Skipping string string
  | UnexpectedError string string

text \<open>
  The lines the program prints, in the order of the constructors:
  \<^verbatim>\<open>Welcome to the Ubuntu Image Fetcher\<close>,
  \<^verbatim>\<open>A tool for mindfully collecting images from the web\<close>,
  \<^verbatim>\<open>Please enter image URLs separated by commas:\<close>,
  \<^verbatim>\<open>No valid URLs provided. Exiting.\<close>,
  \<^verbatim>\<open>Fetching images...\<close>,
  \<^verbatim>\<open>Connection strengthened. Community enriched.\<close>,
  \<^verbatim>\<open>Skipping duplicate: {filename}\<close>,
  \<^verbatim>\<open>Successfully fetched: {filename}\<close>,
  \<^verbatim>\<open>Image saved to {filepath}\<close>,
  \<^verbatim>\<open>Connection error for {url}: {e}\<close>,
  \<^verbatim>\<open>Skipping {url}: {e}\<close> and
  \<^verbatim>\<open>Unexpected error for {url}: {e}\<close>.
\<close>

record world =
  fs :: "string \<rightharpoonup> entry"
  console :: "line list"
  requested :: "string list"

text \<open>
  \<^const>\<open>fs\<close> holds the files and directories under their paths, as far as the program
  can name them: names in the current directory and names one level below them;
  \<^const>\<open>console\<close> holds the lines printed so far, and \<^const>\<open>requested\<close> the URLs
  \<^verbatim>\<open>requests.get\<close> was called with so far.
\<close>

record env =
  http_get :: "string list \<Rightarrow> string \<Rightarrow> exn + response"
  urlparse_path :: "string \<Rightarrow> exn + string"
  os_fault :: "(string \<rightharpoonup> entry) \<Rightarrow> os_call \<Rightarrow> exn option"

text \<open>
  What the program does not decide itself: \<^const>\<open>http_get\<close> is
  \<^verbatim>\<open>requests.get(url, timeout=10, stream=True)\<close> after the given earlier requests,
  \<^const>\<open>urlparse_path\<close> is \<^verbatim>\<open>urlparse(url).path\<close>, and \<^const>\<open>os_fault\<close> is the error with
  which the operating system refuses a call in a given filesystem, if it does.
\<close>

definition print :: "line \<Rightarrow> world \<Rightarrow> world" where
  "print l w = w\<lparr>console := console w @ [l]\<rparr>"

definition directory_of :: "string \<Rightarrow> string" where
  \<comment> \<open>the part of a path before its last slash; empty for a name in the current directory\<close>
  "directory_of p = rev (drop 1 (dropWhile (\<lambda>c. c \<noteq> CHR ''/'') (rev p)))"

definition is_directory :: "(string \<rightharpoonup> entry) \<Rightarrow> string \<Rightarrow> bool" where
  \<comment> \<open>the current directory is always there\<close>
  "is_directory files d = (d = [] \<or> files d = Some Dir)"

definition entry_at :: "(string \<rightharpoonup> entry) \<Rightarrow> string \<Rightarrow> entry option" where
  \<comment> \<open>the entry a path leads to: nothing below what is not a directory; inside a
      directory the names \<^verbatim>\<open>.\<close> and \<^verbatim>\<open>..\<close> lead to directories\<close>
  "entry_at files p =
     (if \<not> is_directory files (directory_of p) then None
      else if basename p = ''.'' \<or> basename p = ''..'' then Some Dir
      else files p)"

definition open_wb :: "env \<Rightarrow> string \<Rightarrow> world \<Rightarrow> (exn + unit) \<times> world" where
  \<comment> \<open>\<^verbatim>\<open>open(filepath, 'wb')\<close>: it needs the directory of the path and refuses a
      directory; otherwise an empty file replaces what was there\<close>
  "open_wb env filepath w =
     (case os_fault env (fs w) (Open filepath) of
        Some e \<Rightarrow> (Inl e, w)
      | None \<Rightarrow>
          if \<not> is_directory (fs w) (directory_of filepath)
          then (case fs w (directory_of filepath) of
                  None \<Rightarrow> (Inl (OtherException ''FileNotFoundError''), w)
                | Some _ \<Rightarrow> (Inl (OtherException ''NotADirectoryError''), w))
          else
            (case entry_at (fs w) filepath of
               Some Dir \<Rightarrow> (Inl (OtherException ''IsADirectoryError''), w)
             | _ \<Rightarrow> (Inr (), w\<lparr>fs := (fs w)(filepath \<mapsto> File [])\<rparr>)))"

definition f_write :: "env \<Rightarrow> string \<Rightarrow> bytes \<Rightarrow> world \<Rightarrow> (exn + unit) \<times> world" where
  \<comment> \<open>\<^verbatim>\<open>f.write(chunk)\<close> on the file opened at \<^verbatim>\<open>filepath\<close>\<close>
  "f_write env filepath chunk w =
     (case os_fault env (fs w) (Write filepath chunk) of
        Some e \<Rightarrow> (Inl e, w)
      | None \<Rightarrow>
          (Inr (), w\<lparr>fs := (fs w)(filepath \<mapsto>
             File ((case fs w filepath of Some (File content) \<Rightarrow> content | _ \<Rightarrow> [])
                     @ chunk))\<rparr>))"

section \<open>The program\<close>

definition SAVE_DIR :: string where
  "SAVE_DIR = ''Fetched_Images''"

definition create_save_directory :: "env \<Rightarrow> world \<Rightarrow> (exn + unit) \<times> world" where
  \<comment> \<open>\<^verbatim>\<open>os.makedirs(SAVE_DIR, exist_ok=True)\<close>\<close>
  "create_save_directory env w =
     (case os_fault env (fs w) (Makedirs SAVE_DIR) of
        Some e \<Rightarrow> (Inl e, w)
      | None \<Rightarrow>
          (case fs w SAVE_DIR of
             None \<Rightarrow> (Inr (), w\<lparr>fs := (fs w)(SAVE_DIR \<mapsto> Dir)\<rparr>)
           | Some Dir \<Rightarrow> (Inr (), w)
           | Some (File _) \<Rightarrow> (Inl (OtherException ''FileExistsError''), w)))"

definition get_filename_from_url :: "env \<Rightarrow> string \<Rightarrow> exn + string" where
  "get_filename_from_url env url =
     (case urlparse_path env url of
        Inl e \<Rightarrow> Inl e
      | Inr path \<Rightarrow>
          (let filename = basename path
           in if filename = [] then Inr (md5_hexdigest (utf8_encode url) @ ''.jpg'')
              else Inr filename))"

definition file_already_exists :: "world \<Rightarrow> string \<Rightarrow> bool" where
  \<comment> \<open>\<^verbatim>\<open>os.path.exists(filepath)\<close>\<close>
  "file_already_exists w filepath = (entry_at (fs w) filepath \<noteq> None)"

definition content_type :: "response \<Rightarrow> string" where
  \<comment> \<open>line 33: \<^verbatim>\<open>response.headers.get('Content-Type', '').lower()\<close>\<close>
  "content_type response =
     py_lower (case headers_get response ''Content-Type'' of None \<Rightarrow> [] | Some v \<Rightarrow> v)"

definition validate_response_headers :: "response \<Rightarrow> exn + unit" where
  "validate_response_headers response =
     (if \<not> py_startswith (content_type response) ''image/''
      then Inl (ValueError ''Invalid file type. Only image files are allowed.'')
      else
        (case headers_get response ''Content-Length'' of
           None \<Rightarrow> Inr ()
         | Some content_length \<Rightarrow>
             if content_length = [] then Inr ()
             else
               (case py_int content_length of
                  Inl e \<Rightarrow> Inl e
                | Inr n \<Rightarrow>
                    if n > 10 * 1024 * 1024
                    then Inl (ValueError ''File is too large (limit is 10MB).'')
                    else Inr ())))"

fun write_chunks :: "env \<Rightarrow> string \<Rightarrow> bytes list \<Rightarrow> world \<Rightarrow> (exn + unit) \<times> world" where
  \<comment> \<open>lines 63 to 65: \<^verbatim>\<open>for chunk in ...: if chunk: f.write(chunk)\<close>\<close>
  "write_chunks env filepath [] w = (Inr (), w)"
| "write_chunks env filepath (chunk # rest) w =
     (if chunk = [] then write_chunks env filepath rest w
      else
        (case f_write env filepath chunk w of
           (Inl e, w') \<Rightarrow> (Inl e, w')
         | (Inr _, w') \<Rightarrow> write_chunks env filepath rest w'))"

definition download_image_try :: "env \<Rightarrow> string \<Rightarrow> world \<Rightarrow> (exn + unit) \<times> world" where
  \<comment> \<open>the \<^verbatim>\<open>try\<close> block of \<^verbatim>\<open>download_image\<close>, lines 45 to 68\<close>
  "download_image_try env url w =
     (let w1 = w\<lparr>requested := requested w @ [url]\<rparr>
      in case http_get env (requested w) url of
           Inl e \<Rightarrow> (Inl e, w1)
         | Inr response \<Rightarrow>
         (case raise_for_status response of
           Inl e \<Rightarrow> (Inl e, w1)
         | Inr _ \<Rightarrow>
         (case validate_response_headers response of
           Inl e \<Rightarrow> (Inl e, w1)
         | Inr _ \<Rightarrow>
         (case get_filename_from_url env url of
           Inl e \<Rightarrow> (Inl e, w1)
         | Inr filename \<Rightarrow>
         (let filepath = os_path_join SAVE_DIR filename
          in if file_already_exists w1 filepath
             then (Inr (), print (SkippingDuplicate filename) w1)
             else
               (case open_wb env filepath w1 of
                  (Inl e, w2) \<Rightarrow> (Inl e, w2)
                | (Inr _, w2) \<Rightarrow>
               (case write_chunks env filepath (chunks response) w2 of
                  (Inl e, w3) \<Rightarrow> (Inl e, w3)
                | (Inr _, w3) \<Rightarrow>
               (case stream_error response of
                  Some e \<Rightarrow> (Inl e, w3)
                | None \<Rightarrow>
                    (Inr (), print (ImageSavedTo filepath)
                               (print (SuccessfullyFetched filename) w3))))))))))"

definition download_image :: "env \<Rightarrow> string \<Rightarrow> world \<Rightarrow> (exn + unit) \<times> world" where
  \<comment> \<open>the \<^verbatim>\<open>try\<close> block under its three handlers, lines 70 to 75\<close>
  "download_image env url w =
     (case download_image_try env url w of
        (Inr u, w') \<Rightarrow> (Inr u, w')
      | (Inl (RequestException e), w') \<Rightarrow> (Inr (), print (ConnectionError url e) w')
      | (Inl (ValueError e), w') \<Rightarrow> (Inr (), print (Skipping url e) w')
      | (Inl (OtherException e), w') \<Rightarrow> (Inr (), print (UnexpectedError url e) w'))"

fun for_each_url :: "env \<Rightarrow> string list \<Rightarrow> world \<Rightarrow> (exn + unit) \<times> world" where
  \<comment> \<open>lines 94 and 95: \<^verbatim>\<open>for url in urls: download_image(url)\<close>\<close>
  "for_each_url env [] w = (Inr (), w)"
| "for_each_url env (url # urls) w =
     (case download_image env url w of
        (Inl e, w') \<Rightarrow> (Inl e, w')
      | (Inr _, w') \<Rightarrow> for_each_url env urls w')"

definition collect_urls :: "string \<Rightarrow> string list" where
  \<comment> \<open>line 83:
      \<^verbatim>\<open>urls = [url.strip() for url in urls_input.split(",") if url.strip()]\<close>\<close>
  "collect_urls urls_input =
     [py_strip url. url \<leftarrow> py_split (CHR '','') urls_input, py_strip url \<noteq> []]"

definition main :: "env \<Rightarrow> string \<Rightarrow> world \<Rightarrow> (exn + unit) \<times> world" where
  \<comment> \<open>\<^verbatim>\<open>main\<close>, where \<^verbatim>\<open>input\<close> returns the line \<^verbatim>\<open>urls_input\<close>\<close>
  "main env urls_input w =
     (let w1 = print Prompt (print Tagline (print Welcome w));
          urls = collect_urls urls_input
      in if urls = [] then (Inr (), print NoValidUrls w1)
         else
           (case create_save_directory env w1 of
              (Inl e, w2) \<Rightarrow> (Inl e, w2)
            | (Inr _, w2) \<Rightarrow>
           (case for_each_url env urls (print FetchingImages w2) of
              (Inl e, w3) \<Rightarrow> (Inl e, w3)
            | (Inr _, w3) \<Rightarrow> (Inr (), print ConnectionStrengthened w3))))"

section \<open>The contracts in the specification's words\<close>

fun comma_pieces :: "string \<Rightarrow> string list" where
  \<comment> \<open>The comma-delimited pieces of a line, read off character by character: a comma
      closes the current piece, any other character belongs to it.\<close>
  "comma_pieces [] = [[]]"
| "comma_pieces (c # cs) =
     (if c = CHR '','' then [] # comma_pieces cs
      else (case comma_pieces cs of
              [] \<Rightarrow> [[c]]
            | p # ps \<Rightarrow> (c # p) # ps))"

definition trimmed :: "string \<Rightarrow> string" where
  \<comment> \<open>A piece without its surrounding whitespace: what is left when the whitespace at
      the end and then the whitespace at the beginning are taken away.\<close>
  "trimmed p = dropWhile py_isspace (rev (dropWhile py_isspace (rev p)))"

fun join_commas :: "string list \<Rightarrow> string" where
  "join_commas [] = []"
| "join_commas [p] = p"
| "join_commas (p # q # ps) = p @ CHR '','' # join_commas (q # ps)"

definition final_segment :: "string \<Rightarrow> string" where
  \<comment> \<open>The final segment of a path: the last of the pieces between its slashes.\<close>
  "final_segment path = last (py_split (CHR ''/'') path)"

section \<open>Sample responses and environments\<close>

definition cat_jpg :: response where
  "cat_jpg =
     \<lparr>status_code = 200,
      headers = [''content-type'' \<mapsto> ''image/jpeg'', ''content-length'' \<mapsto> ''5''],
      chunks = [[0xFF, 0xD8, 0xFF], [], [0xD9, 0x0A]],
      stream_error = None\<rparr>"

definition root_png :: response where
  "root_png =
     \<lparr>status_code = 200,
      headers = [''content-type'' \<mapsto> ''IMAGE/PNG''],
      chunks = [[0x89, 0x50, 0x4E, 0x47]],
      stream_error = None\<rparr>"

definition html_page :: response where
  "html_page =
     \<lparr>status_code = 200,
      headers = [''content-type'' \<mapsto> ''text/html'', ''content-length'' \<mapsto> ''11000000''],
      chunks = [[0x3C, 0x68, 0x31, 0x3E]],
      stream_error = None\<rparr>"

definition big_png :: response where
  "big_png =
     \<lparr>status_code = 200,
      headers = [''content-type'' \<mapsto> ''image/png'', ''content-length'' \<mapsto> ''11000000''],
      chunks = [[0x89, 0x50, 0x4E, 0x47]],
      stream_error = None\<rparr>"

definition untyped :: response where
  "untyped =
     \<lparr>status_code = 200,
      headers = Map.empty,
      chunks = [[0x89, 0x50, 0x4E, 0x47]],
      stream_error = None\<rparr>"

definition broken_gif :: response where
  "broken_gif =
     \<lparr>status_code = 200,
      headers = [''content-type'' \<mapsto> ''image/gif''],
      chunks = [[0x47, 0x49, 0x46]],
      stream_error = Some (RequestException ''ChunkedEncodingError'')\<rparr>"

definition garbled_png :: response where
  "garbled_png =
     \<lparr>status_code = 200,
      headers = [''content-type'' \<mapsto> ''image/png'', ''content-length'' \<mapsto> ''11000000 bytes''],
      chunks = [[0x89, 0x50, 0x4E, 0x47]],
      stream_error = None\<rparr>"

definition blank_length_png :: response where
  \<comment> \<open>an image whose Content-Length header is there and empty\<close>
  "blank_length_png =
     \<lparr>status_code = 200,
      headers = [''content-type'' \<mapsto> ''image/png'', ''content-length'' \<mapsto> []],
      chunks = [[0x89, 0x50, 0x4E, 0x47]],
      stream_error = None\<rparr>"

definition sample_get :: "string list \<Rightarrow> string \<Rightarrow> exn + response" where
  "sample_get earlier url =
     (if url = ''http://example.com/cat.jpg'' then Inr cat_jpg
      else if url = ''http://example.com/pics/.'' then Inr cat_jpg
      else if url = ''http://example.com/'' then Inr root_png
      else if url = ''http://example.com/page.html'' then Inr html_page
      else if url = ''http://example.com/big.png'' then Inr big_png
      else if url = ''http://example.com/plain'' then Inr untyped
      else if url = ''http://example.com/broken.gif'' then Inr broken_gif
      else if url = ''http://example.com/gone.png''
      then Inr (cat_jpg\<lparr>status_code := 404\<rparr>)
      else Inl (RequestException ''ConnectionError''))"

definition sample_path :: "string \<Rightarrow> exn + string" where
  \<comment> \<open>the path of a URL of the form \<^verbatim>\<open>http://host/path?query#fragment\<close>\<close>
  "sample_path url =
     Inr (takeWhile (\<lambda>c. c \<noteq> CHR ''?'' \<and> c \<noteq> CHR ''#'')
            (dropWhile (\<lambda>c. c \<noteq> CHR ''/'') (drop 7 url)))"

definition sample_env :: env where
  "sample_env =
     \<lparr>http_get = sample_get, urlparse_path = sample_path, os_fault = (\<lambda>files call. None)\<rparr>"

definition full_disk_env :: env where
  \<comment> \<open>as \<^const>\<open>sample_env\<close>, on a disk that takes no more data\<close>
  "full_disk_env =
     \<lparr>http_get = sample_get, urlparse_path = sample_path,
      os_fault = (\<lambda>files call. case call of
                    Write filepath chunk \<Rightarrow> Some (OtherException ''No space left on device'')
                  | _ \<Rightarrow> None)\<rparr>"

definition empty_world :: world where
  "empty_world = \<lparr>fs = Map.empty, console = [], requested = []\<rparr>"

definition cat_world :: world where
  \<comment> \<open>a world where \<^verbatim>\<open>Fetched_Images/cat.jpg\<close> is there already\<close>
  "cat_world =
     \<lparr>fs = [''Fetched_Images'' \<mapsto> Dir, ''Fetched_Images/cat.jpg'' \<mapsto> File [0x01, 0x02]],
      console = [], requested = []\<rparr>"

definition ready_world :: world where
  \<comment> \<open>a world with the empty output directory\<close>
  "ready_world = \<lparr>fs = [''Fetched_Images'' \<mapsto> Dir], console = [], requested = []\<rparr>"


section \<open>Effects of the file operations and of one download\<close>

lemma print_simps [simp]:
  "fs (print l w) = fs w" "requested (print l w) = requested w"
  "console (print l w) = console w @ [l]"
  by (simp_all add: print_def)

lemma entry_at_preserved:
  assumes "\<forall>q. files q \<noteq> None \<longrightarrow> files' q = files q"
    and "entry_at files p \<noteq> None"
  shows "entry_at files' p = entry_at files p"
proof -
  from assms(2) have dir: "is_directory files (directory_of p)"
    by (auto simp: entry_at_def split: if_splits)
  then have dir': "is_directory files' (directory_of p)"
    using assms(1) by (auto simp: is_directory_def)
  show ?thesis
  proof (cases "basename p = ''.'' \<or> basename p = ''..''")
    case True
    with dir dir' show ?thesis by (simp add: entry_at_def)
  next
    case False
    with assms(2) dir have "files p \<noteq> None" by (simp add: entry_at_def)
    then have "files' p = files p" using assms(1) by blast
    with False dir dir' show ?thesis by (simp add: entry_at_def)
  qed
qed

lemma open_wb_failed: "open_wb env filepath w = (Inl e, w') \<Longrightarrow> w' = w"
  by (auto simp: open_wb_def split: option.splits entry.splits if_splits)

lemma open_wb_created:
  assumes "open_wb env filepath w = (Inr u, w')"
    and "entry_at (fs w) filepath = None"
  shows "fs w filepath = None"
proof -
  from assms(1) have "is_directory (fs w) (directory_of filepath)"
    by (auto simp: open_wb_def split: option.splits entry.splits if_splits)
  with assms(2) show ?thesis by (auto simp: entry_at_def split: if_splits)
qed

lemma open_wb_requested: "requested (snd (open_wb env filepath w)) = requested w"
  by (simp add: open_wb_def split: option.splits entry.splits)

lemma open_wb_console: "console (snd (open_wb env filepath w)) = console w"
  by (simp add: open_wb_def split: option.splits entry.splits)

lemma open_wb_fs_other: "p \<noteq> filepath \<Longrightarrow> fs (snd (open_wb env filepath w)) p = fs w p"
  by (simp add: open_wb_def split: option.splits entry.splits)

lemma f_write_requested: "requested (snd (f_write env filepath chunk w)) = requested w"
  by (simp add: f_write_def split: option.splits)

lemma f_write_console: "console (snd (f_write env filepath chunk w)) = console w"
  by (simp add: f_write_def split: option.splits)

lemma f_write_fs_other: "p \<noteq> filepath \<Longrightarrow> fs (snd (f_write env filepath chunk w)) p = fs w p"
  by (simp add: f_write_def split: option.splits)

lemma write_chunks_requested:
  "requested (snd (write_chunks env filepath cs w)) = requested w"
proof (induction cs arbitrary: w)
  case Nil
  show ?case by simp
next
  case (Cons chunk rest)
  show ?case
  proof (cases "f_write env filepath chunk w")
    case (Pair r w')
    then have "requested w' = requested w"
      using f_write_requested [of env filepath chunk w] by simp
    with Pair Cons show ?thesis by (cases r) simp_all
  qed
qed

lemma write_chunks_console:
  "console (snd (write_chunks env filepath cs w)) = console w"
proof (induction cs arbitrary: w)
  case Nil
  show ?case by simp
next
  case (Cons chunk rest)
  show ?case
  proof (cases "f_write env filepath chunk w")
    case (Pair r w')
    then have "console w' = console w"
      using f_write_console [of env filepath chunk w] by simp
    with Pair Cons show ?thesis by (cases r) simp_all
  qed
qed

lemma write_chunks_fs_other:
  "p \<noteq> filepath \<Longrightarrow> fs (snd (write_chunks env filepath cs w)) p = fs w p"
proof (induction cs arbitrary: w)
  case Nil
  show ?case by simp
next
  case (Cons chunk rest)
  show ?case
  proof (cases "f_write env filepath chunk w")
    case (Pair r w')
    then have "fs w' p = fs w p"
      using f_write_fs_other [of p filepath env chunk w] Cons.prems by simp
    with Pair Cons show ?thesis by (cases r) simp_all
  qed
qed


lemma open_wb_effect:
  assumes "open_wb env filepath w = (r, w')"
  shows "requested w' = requested w" "console w' = console w"
    "p \<noteq> filepath \<Longrightarrow> fs w' p = fs w p"
  using assms open_wb_requested [of env filepath w] open_wb_console [of env filepath w]
    open_wb_fs_other [of p filepath env w] by simp_all

lemma write_chunks_effect:
  assumes "write_chunks env filepath cs w = (r, w')"
  shows "requested w' = requested w" "console w' = console w"
    "p \<noteq> filepath \<Longrightarrow> fs w' p = fs w p"
  using assms write_chunks_requested [of env filepath cs w]
    write_chunks_console [of env filepath cs w]
    write_chunks_fs_other [of p filepath env cs w] by simp_all


lemma download_image_try_keeps_entry:
  assumes "entry_at (fs w) p \<noteq> None"
  shows "fs (snd (download_image_try env url w)) p = fs w p"
proof -
  have "fs w2 p = fs w p"
    if "entry_at (fs w) filepath = None"
      "open_wb env filepath (w\<lparr>requested := requested w @ [url]\<rparr>) = (r1, w1)"
      "write_chunks env filepath cs w1 = (r2, w2)" for filepath r1 w1 cs r2 w2
  proof -
    from that(1) assms have "p \<noteq> filepath" by auto
    then show ?thesis
      using open_wb_effect(3) [OF that(2)] write_chunks_effect(3) [OF that(3)] by simp
  qed
  moreover have "fs w1 p = fs w p"
    if "entry_at (fs w) filepath = None"
      "open_wb env filepath (w\<lparr>requested := requested w @ [url]\<rparr>) = (r1, w1)"
    for filepath r1 w1
  proof -
    from that(1) assms have "p \<noteq> filepath" by auto
    then show ?thesis using open_wb_effect(3) [OF that(2)] by simp
  qed
  ultimately show ?thesis
    by (auto simp: download_image_try_def Let_def file_already_exists_def
        split: sum.splits prod.splits option.splits)
qed

lemma download_image_try_fs_existing:
  assumes "fs w p \<noteq> None"
  shows "fs (snd (download_image_try env url w)) p = fs w p"
proof -
  have opened: "fs w1 p = fs w p"
    if "entry_at (fs w) filepath = None"
      "open_wb env filepath (w\<lparr>requested := requested w @ [url]\<rparr>) = (r1, w1)"
    for filepath r1 w1
  proof (cases r1)
    case (Inl e)
    with that(2) show ?thesis using open_wb_failed by fastforce
  next
    case (Inr u)
    with that have "fs w filepath = None"
      using open_wb_created [of env filepath "w\<lparr>requested := requested w @ [url]\<rparr>" u w1]
      by simp
    with assms have "p \<noteq> filepath" by auto
    then show ?thesis using open_wb_effect(3) [OF that(2)] by simp
  qed
  have "fs w2 p = fs w p"
    if "entry_at (fs w) filepath = None"
      "open_wb env filepath (w\<lparr>requested := requested w @ [url]\<rparr>) = (Inr u, w1)"
      "write_chunks env filepath cs w1 = (r2, w2)" for filepath u w1 cs r2 w2
  proof -
    from that(1,2) have "fs w filepath = None"
      using open_wb_created [of env filepath "w\<lparr>requested := requested w @ [url]\<rparr>" u w1]
      by simp
    with assms have "p \<noteq> filepath" by auto
    then show ?thesis
      using opened [OF that(1,2)] write_chunks_effect(3) [OF that(3)] by simp
  qed
  with opened show ?thesis
    by (auto simp: download_image_try_def Let_def file_already_exists_def
        split: sum.splits prod.splits option.splits)
qed

lemma download_image_try_fs_changed:
  assumes "fs (snd (download_image_try env url w)) \<noteq> fs w"
  shows "\<exists>response. http_get env (requested w) url = Inr response
           \<and> raise_for_status response = Inr ()
           \<and> validate_response_headers response = Inr ()"
  using assms
  by (auto simp: download_image_try_def Let_def split: sum.splits)

lemma download_image_result: "fst (download_image env url w) = Inr ()"
  by (simp add: download_image_def split: prod.splits sum.splits exn.splits)

lemma download_image_fs:
  "fs (snd (download_image env url w)) = fs (snd (download_image_try env url w))"
  by (simp add: download_image_def split: prod.splits sum.splits exn.splits)





lemma download_image_fs_existing:
  "fs w p \<noteq> None \<Longrightarrow> fs (snd (download_image env url w)) p = fs w p"
  by (simp add: download_image_fs download_image_try_fs_existing)

lemma download_image_keeps_entry:
  "file_already_exists w p \<Longrightarrow> fs (snd (download_image env url w)) p = fs w p"
  by (simp add: download_image_fs download_image_try_keeps_entry file_already_exists_def)

lemma download_image_still_exists:
  assumes "file_already_exists w p"
  shows "file_already_exists (snd (download_image env url w)) p"
proof -
  have "\<forall>q. fs w q \<noteq> None \<longrightarrow> fs (snd (download_image env url w)) q = fs w q"
    by (simp add: download_image_fs_existing)
  then have "entry_at (fs (snd (download_image env url w))) p = entry_at (fs w) p"
    using assms unfolding file_already_exists_def by (rule entry_at_preserved)
  with assms show ?thesis by (simp add: file_already_exists_def)
qed

lemma for_each_url_keeps_entry:
  "file_already_exists w p \<Longrightarrow> fs (snd (for_each_url env urls w)) p = fs w p"
proof (induction urls arbitrary: w)
  case Nil
  show ?case by simp
next
  case (Cons url urls)
  obtain r w' where step: "download_image env url w = (r, w')"
    by (cases "download_image env url w")
  then have r: "r = Inr ()" and keep: "fs w' p = fs w p"
    and still: "file_already_exists w' p"
    using download_image_result [of env url w]
      download_image_keeps_entry [OF Cons.prems, of env url]
      download_image_still_exists [OF Cons.prems, of env url] by simp_all
  from still have "fs (snd (for_each_url env urls w')) p = fs w' p" by (rule Cons.IH)
  with step r keep show ?case by simp
qed

section \<open>Existing files are left alone\<close>

lemma download_image_duplicate:
  assumes "http_get env (requested w) url = Inr response"
    and "raise_for_status response = Inr ()"
    and "validate_response_headers response = Inr ()"
    and "get_filename_from_url env url = Inr filename"
    and "file_already_exists w (os_path_join SAVE_DIR filename)"
  shows "download_image env url w =
    (Inr (), print (SkippingDuplicate filename) (w\<lparr>requested := requested w @ [url]\<rparr>))"
  using assms
  by (simp add: download_image_def download_image_try_def file_already_exists_def)

lemma download_image_existing_untouched:
  assumes "get_filename_from_url env url = Inr filename"
    and "file_already_exists w (os_path_join SAVE_DIR filename)"
  shows "fs (snd (download_image env url w)) = fs w"
  using assms
  by (auto simp: download_image_fs download_image_try_def file_already_exists_def Let_def
      split: sum.splits)

text \<open>
  C1: when the destination path of a URL names an existing filesystem entry, processing
  the URL writes nothing, and once the response has been fetched and validated the
  outcome is the duplicate-skip report, a normal return, whatever the response body is.
  No URL's processing, alone or within the whole run, changes an entry that exists.
\<close>

theorem existing_destination_is_skipped:
  "(get_filename_from_url env url = Inr filename
      \<and> file_already_exists w (os_path_join SAVE_DIR filename)
      \<longrightarrow> fs (snd (download_image env url w)) = fs w)
   \<and> (http_get env (requested w) url = Inr response
      \<and> raise_for_status response = Inr ()
      \<and> validate_response_headers response = Inr ()
      \<and> get_filename_from_url env url = Inr filename
      \<and> file_already_exists w (os_path_join SAVE_DIR filename)
      \<longrightarrow> download_image env url w =
            (Inr (), print (SkippingDuplicate filename)
                       (w\<lparr>requested := requested w @ [url]\<rparr>)))
   \<and> (file_already_exists w p \<longrightarrow> fs (snd (download_image env url w)) p = fs w p)
   \<and> (file_already_exists w p \<longrightarrow> fs (snd (for_each_url env urls w)) p = fs w p)"
  using download_image_existing_untouched [of env url filename w]
    download_image_duplicate [of env w url response filename]
    download_image_keeps_entry [of w p env url]
    for_each_url_keeps_entry [of w p env urls]
  by simp

theorem existing_destination_is_skipped_witness:
  "download_image sample_env ''http://example.com/cat.jpg'' cat_world =
     (Inr (), print (SkippingDuplicate ''cat.jpg'')
                (cat_world\<lparr>requested := requested cat_world @ [''http://example.com/cat.jpg'']\<rparr>))
   \<and> fs (snd (download_image sample_env ''http://example.com/cat.jpg'' cat_world))
       ''Fetched_Images/cat.jpg'' = Some (File [0x01, 0x02])"
proof -
  have get: "http_get sample_env (requested cat_world) ''http://example.com/cat.jpg'' = Inr cat_jpg"
    by (simp add: sample_env_def sample_get_def)
  have status: "raise_for_status cat_jpg = Inr ()"
    by (simp add: raise_for_status_def cat_jpg_def)
  have valid: "validate_response_headers cat_jpg = Inr ()"
    by code_simp
  have name: "get_filename_from_url sample_env ''http://example.com/cat.jpg'' = Inr ''cat.jpg''"
    by (simp add: get_filename_from_url_def sample_env_def sample_path_def basename_def)
  have there: "file_already_exists cat_world (os_path_join SAVE_DIR ''cat.jpg'')"
    by code_simp
  have there': "file_already_exists cat_world ''Fetched_Images/cat.jpg''"
    by code_simp
  have old: "fs cat_world ''Fetched_Images/cat.jpg'' = Some (File [0x01, 0x02])"
    by (simp add: cat_world_def)
  show ?thesis
    using existing_destination_is_skipped [of sample_env "''http://example.com/cat.jpg''"
        "''cat.jpg''" cat_world cat_jpg "''Fetched_Images/cat.jpg''" "[]"]
      get status valid name there there' old
    by simp
qed

section \<open>The Safety Validator\<close>

lemma py_int_Nil: "py_int [] = Inl (ValueError ''invalid literal for int() with base 10'')"
  by (simp add: py_int_def)

lemma first_error_of_three:
  "(if A then Inl a else if B then Inl b else if C then Inl a else Inr v) = Inl e
     \<Longrightarrow> e = a \<or> e = b"
  by (simp split: if_splits)

lemma py_int_errors:
  "py_int s = Inl e \<Longrightarrow>
     e = ValueError ''invalid literal for int() with base 10''
     \<or> e = ValueError ''Exceeds the limit (4300 digits) for integer string conversion''"
  unfolding py_int_def Let_def by (rule first_error_of_three)

lemma validate_not_image:
  "\<not> py_startswith (content_type response) ''image/'' \<Longrightarrow>
     validate_response_headers response
       = Inl (ValueError ''Invalid file type. Only image files are allowed.'')"
  by (simp add: validate_response_headers_def)

lemma validate_image:
  assumes "py_startswith (content_type response) ''image/''"
  shows "validate_response_headers response
       \<noteq> Inl (ValueError ''Invalid file type. Only image files are allowed.'')"
proof (cases "headers_get response ''Content-Length''")
  case None
  with assms show ?thesis by (simp add: validate_response_headers_def)
next
  case (Some content_length)
  show ?thesis
  proof (cases "py_int content_length")
    case (Inl e)
    then have "e \<noteq> ValueError ''Invalid file type. Only image files are allowed.''"
      using py_int_errors [of content_length e] by auto
    with assms Some Inl show ?thesis by (simp add: validate_response_headers_def)
  next
    case (Inr n)
    with assms Some show ?thesis by (simp add: validate_response_headers_def)
  qed
qed

lemma download_image_invalid:
  assumes "http_get env (requested w) url = Inr response"
    and "raise_for_status response = Inr ()"
    and "validate_response_headers response = Inl (ValueError text)"
  shows "download_image env url w =
    (Inr (), print (Skipping url text) (w\<lparr>requested := requested w @ [url]\<rparr>))"
  using assms by (simp add: download_image_def download_image_try_def)

lemma download_image_not_validated:
  assumes "http_get env (requested w) url = Inr response"
    and "validate_response_headers response = Inl e"
  shows "fs (snd (download_image env url w)) = fs w"
  using assms
  by (auto simp: download_image_fs download_image_try_def Let_def split: sum.splits)

subsection \<open>The check of the content type\<close>

text \<open>
  C2, for the invalid-file-type error: the Safety Validator fails with this error
  exactly when the declared Content-Type, in lower case, does not start with
  \<^verbatim>\<open>image/\<close>. A URL whose response has a successful status and such a type is
  reported as skipped with that error, and no file is created for it; nor is one
  created after any other failure of the validator.
\<close>

theorem invalid_type_exactly_when_not_image:
  "(validate_response_headers response
        = Inl (ValueError ''Invalid file type. Only image files are allowed.'')
      \<longleftrightarrow> \<not> py_startswith (content_type response) ''image/'')
   \<and> (http_get env (requested w) url = Inr response
        \<and> raise_for_status response = Inr ()
        \<and> \<not> py_startswith (content_type response) ''image/''
      \<longrightarrow> download_image env url w =
            (Inr (), print (Skipping url ''Invalid file type. Only image files are allowed.'')
                       (w\<lparr>requested := requested w @ [url]\<rparr>))
          \<and> fs (snd (download_image env url w)) = fs w)
   \<and> (http_get env (requested w) url = Inr response
        \<and> validate_response_headers response = Inl e
      \<longrightarrow> fs (snd (download_image env url w)) = fs w)"
proof -
  have "validate_response_headers response
        = Inl (ValueError ''Invalid file type. Only image files are allowed.'')
      \<longleftrightarrow> \<not> py_startswith (content_type response) ''image/''"
    using validate_not_image [of response] validate_image [of response] by blast
  moreover have "download_image env url w =
            (Inr (), print (Skipping url ''Invalid file type. Only image files are allowed.'')
                       (w\<lparr>requested := requested w @ [url]\<rparr>))
          \<and> fs (snd (download_image env url w)) = fs w"
    if "http_get env (requested w) url = Inr response" "raise_for_status response = Inr ()"
      "\<not> py_startswith (content_type response) ''image/''"
    using download_image_invalid [OF that(1,2) validate_not_image [OF that(3)]]
      download_image_not_validated [OF that(1) validate_not_image [OF that(3)]]
    by simp
  ultimately show ?thesis
    using download_image_not_validated [of env w url response e] by blast
qed

theorem invalid_type_exactly_when_not_image_witness:
  "validate_response_headers html_page
      = Inl (ValueError ''Invalid file type. Only image files are allowed.'')
   \<and> download_image sample_env ''http://example.com/page.html'' empty_world =
       (Inr (), print (Skipping ''http://example.com/page.html''
                         ''Invalid file type. Only image files are allowed.'')
                  (empty_world\<lparr>requested := requested empty_world @ [''http://example.com/page.html'']\<rparr>))
   \<and> fs (snd (download_image sample_env ''http://example.com/page.html'' empty_world))
       = fs empty_world
   \<and> validate_response_headers root_png
      \<noteq> Inl (ValueError ''Invalid file type. Only image files are allowed.'')"
proof -
  have get: "http_get sample_env (requested empty_world) ''http://example.com/page.html''
      = Inr html_page"
    by (simp add: sample_env_def sample_get_def)
  have status: "raise_for_status html_page = Inr ()"
    by (simp add: raise_for_status_def html_page_def)
  have html: "\<not> py_startswith (content_type html_page) ''image/''" by code_simp
  have png: "py_startswith (content_type root_png) ''image/''" by code_simp
  note html_facts = invalid_type_exactly_when_not_image [of html_page sample_env empty_world
      "''http://example.com/page.html''" "ValueError []"]
  note png_facts = invalid_type_exactly_when_not_image [of root_png sample_env empty_world
      "''http://example.com/''" "ValueError []"]
  have "validate_response_headers html_page
      = Inl (ValueError ''Invalid file type. Only image files are allowed.'')"
    using html_facts [THEN conjunct1] html by blast
  moreover have "download_image sample_env ''http://example.com/page.html'' empty_world =
       (Inr (), print (Skipping ''http://example.com/page.html''
                         ''Invalid file type. Only image files are allowed.'')
                  (empty_world\<lparr>requested := requested empty_world @ [''http://example.com/page.html'']\<rparr>))
   \<and> fs (snd (download_image sample_env ''http://example.com/page.html'' empty_world))
       = fs empty_world"
    using html_facts [THEN conjunct2, THEN conjunct1] get status html by blast
  moreover have "validate_response_headers root_png
      \<noteq> Inl (ValueError ''Invalid file type. Only image files are allowed.'')"
    using png_facts [THEN conjunct1] png by blast
  ultimately show ?thesis by blast
qed

text \<open>
  C2 does not hold for validation errors of every kind: a
  response with status 200, type \<^verbatim>\<open>image/png\<close> and a declared length of 11000000 bytes
  has an image type and still fails validation, with the size error.
\<close>

theorem invalid_type_counterexample:
  "raise_for_status big_png = Inr ()
   \<and> py_startswith (content_type big_png) ''image/''
   \<and> validate_response_headers big_png = Inl (ValueError ''File is too large (limit is 10MB).'')"
  by code_simp

subsection \<open>The check of the content length\<close>

lemma validate_with_length:
  assumes "py_startswith (content_type response) ''image/''"
    and "headers_get response ''Content-Length'' = Some content_length"
  shows "validate_response_headers response
      = (if content_length = [] then Inr ()
         else case py_int content_length of
                Inl e \<Rightarrow> Inl e
              | Inr n \<Rightarrow> if n > 10 * 1024 * 1024
                         then Inl (ValueError ''File is too large (limit is 10MB).'')
                         else Inr ())"
  using assms by (simp add: validate_response_headers_def)

lemma too_large_iff:
  assumes "py_startswith (content_type response) ''image/''"
    and "headers_get response ''Content-Length'' = Some content_length"
  shows "validate_response_headers response
        = Inl (ValueError ''File is too large (limit is 10MB).'')
      \<longleftrightarrow> (\<exists>n. py_int content_length = Inr n \<and> n > 10 * 1024 * 1024)"
proof (cases "py_int content_length")
  case (Inl e)
  then have "e \<noteq> ValueError ''File is too large (limit is 10MB).''"
    using py_int_errors [of content_length e] by auto
  with Inl show ?thesis
    by (simp add: validate_with_length [OF assms])
next
  case (Inr n)
  then have "content_length \<noteq> []" using py_int_Nil by auto
  with Inr show ?thesis
    by (simp add: validate_with_length [OF assms])
qed

lemma underscores_ok_replicate:
  "is_digit c \<Longrightarrow> c \<noteq> CHR ''_'' \<Longrightarrow> underscores_ok (replicate (Suc n) c)"
  by (induction n) simp_all

lemma nine_facts:
  "is_digit (CHR ''9'')" "\<not> is_ascii_space (CHR ''9'')"
  "of_char (CHR ''9'') \<noteq> (133::nat)" "of_char (CHR ''9'') \<noteq> (160::nat)"
  by (simp_all add: is_digit_def is_ascii_space_def)

lemma py_int_many_digits:
  assumes "4300 < n"
  shows "py_int (replicate n (CHR ''9''))
    = Inl (ValueError ''Exceeds the limit (4300 digits) for integer string conversion'')"
proof -
  from assms obtain m where n: "n = Suc m" by (cases n) auto
  have ok: "underscores_ok (replicate n (CHR ''9''))"
    unfolding n by (rule underscores_ok_replicate) (simp_all add: nine_facts)
  have pos: "replicate n (CHR ''9'') \<noteq> []" "hd (replicate n (CHR ''9'')) = CHR ''9''"
    by (simp_all add: n)
  show ?thesis
    unfolding py_int_def Let_def
    using ok pos assms
    by (simp add: nine_facts dropWhile_replicate takeWhile_replicate filter_replicate)
qed

text \<open>
  A header of more than 4300 digits spells a number above the limit, but \<^verbatim>\<open>int\<close> refuses
  to read it: the validator fails with the error of \<^verbatim>\<open>int\<close>, not with the size error.
\<close>

lemma long_number_is_refused:
  assumes "py_startswith (content_type response) ''image/''"
    and "headers_get response ''Content-Length'' = Some (replicate n (CHR ''9''))"
    and "4300 < n"
  shows "validate_response_headers response
    = Inl (ValueError ''Exceeds the limit (4300 digits) for integer string conversion'')"
proof -
  have "replicate n (CHR ''9'') \<noteq> []" using assms(3) by auto
  with py_int_many_digits [OF assms(3)] show ?thesis
    by (simp add: validate_with_length [OF assms(1,2)])
qed

text \<open>
  C3, behind the type check: for a response whose Content-Type passes the image check
  and which carries a Content-Length header, the Safety Validator fails with the size
  error exactly when \<^verbatim>\<open>int\<close> reads the header as an integer and this integer exceeds
  10 * 1024 * 1024. A header that is not empty and that \<^verbatim>\<open>int\<close> refuses, because it is
  not a decimal integer or has more than 4300 digits, fails with the error of \<^verbatim>\<open>int\<close>;
  an empty header passes. Without a Content-Length header the
  validator never fails with the size error, and a response with an image type passes.
\<close>

theorem too_large_exactly_when_over_limit:
  "(py_startswith (content_type response) ''image/''
        \<and> headers_get response ''Content-Length'' = Some content_length
      \<longrightarrow> (validate_response_headers response
              = Inl (ValueError ''File is too large (limit is 10MB).'')
            \<longleftrightarrow> (\<exists>n. py_int content_length = Inr n \<and> n > 10 * 1024 * 1024))
          \<and> (content_length \<noteq> [] \<and> py_int content_length = Inl e
              \<longrightarrow> validate_response_headers response = Inl e)
          \<and> (content_length = [] \<longrightarrow> validate_response_headers response = Inr ()))
   \<and> (headers_get response ''Content-Length'' = None
      \<longrightarrow> validate_response_headers response
            \<noteq> Inl (ValueError ''File is too large (limit is 10MB).''))
   \<and> (py_startswith (content_type response) ''image/''
        \<and> headers_get response ''Content-Length'' = None
      \<longrightarrow> validate_response_headers response = Inr ())"
proof -
  have "(validate_response_headers response
              = Inl (ValueError ''File is too large (limit is 10MB).'')
            \<longleftrightarrow> (\<exists>n. py_int content_length = Inr n \<and> n > 10 * 1024 * 1024))
          \<and> (content_length \<noteq> [] \<and> py_int content_length = Inl e
              \<longrightarrow> validate_response_headers response = Inl e)
          \<and> (content_length = [] \<longrightarrow> validate_response_headers response = Inr ())"
    if "py_startswith (content_type response) ''image/''"
      "headers_get response ''Content-Length'' = Some content_length"
    using too_large_iff [OF that] by (simp add: validate_with_length [OF that])
  moreover have "validate_response_headers response
            \<noteq> Inl (ValueError ''File is too large (limit is 10MB).'')"
    if "headers_get response ''Content-Length'' = None"
    using that by (simp add: validate_response_headers_def)
  moreover have "validate_response_headers response = Inr ()"
    if "py_startswith (content_type response) ''image/''"
      "headers_get response ''Content-Length'' = None"
    using that by (simp add: validate_response_headers_def)
  ultimately show ?thesis by blast
qed

theorem too_large_exactly_when_over_limit_witness:
  "validate_response_headers big_png = Inl (ValueError ''File is too large (limit is 10MB).'')
   \<and> validate_response_headers cat_jpg \<noteq> Inl (ValueError ''File is too large (limit is 10MB).'')
   \<and> validate_response_headers garbled_png
       = Inl (ValueError ''invalid literal for int() with base 10'')
   \<and> validate_response_headers blank_length_png = Inr ()
   \<and> validate_response_headers root_png = Inr ()
   \<and> validate_response_headers untyped
       \<noteq> Inl (ValueError ''File is too large (limit is 10MB).'')"
proof -
  have big: "py_startswith (content_type big_png) ''image/''"
    "headers_get big_png ''Content-Length'' = Some ''11000000''"
    "py_int ''11000000'' = Inr 11000000" by code_simp+
  have cat: "py_startswith (content_type cat_jpg) ''image/''"
    "headers_get cat_jpg ''Content-Length'' = Some ''5''"
    "py_int ''5'' = Inr 5" by code_simp+
  have garbled: "py_startswith (content_type garbled_png) ''image/''"
    "headers_get garbled_png ''Content-Length'' = Some ''11000000 bytes''"
    "py_int ''11000000 bytes'' = Inl (ValueError ''invalid literal for int() with base 10'')"
    by code_simp+
  have blank: "py_startswith (content_type blank_length_png) ''image/''"
    "headers_get blank_length_png ''Content-Length'' = Some []" by code_simp+
  have root: "py_startswith (content_type root_png) ''image/''"
    "headers_get root_png ''Content-Length'' = None" by code_simp+
  have bare: "headers_get untyped ''Content-Length'' = None" by code_simp
  note blank_facts = too_large_exactly_when_over_limit [of blank_length_png "[]"
      "ValueError []", THEN conjunct1, rule_format, OF conjI, OF blank(1,2)]
  note big_facts = too_large_exactly_when_over_limit [of big_png "''11000000''"
      "ValueError []", THEN conjunct1, rule_format, OF conjI, OF big(1,2)]
  note cat_facts = too_large_exactly_when_over_limit [of cat_jpg "''5''"
      "ValueError []", THEN conjunct1, rule_format, OF conjI, OF cat(1,2)]
  note garbled_facts = too_large_exactly_when_over_limit [of garbled_png "''11000000 bytes''"
      "ValueError ''invalid literal for int() with base 10''",
      THEN conjunct1, rule_format, OF conjI, OF garbled(1,2)]
  have "validate_response_headers big_png
      = Inl (ValueError ''File is too large (limit is 10MB).'')"
    using big_facts [THEN conjunct1] big(3) by simp
  moreover have "validate_response_headers cat_jpg
      \<noteq> Inl (ValueError ''File is too large (limit is 10MB).'')"
    using cat_facts [THEN conjunct1] cat(3) by simp
  moreover have "validate_response_headers garbled_png
      = Inl (ValueError ''invalid literal for int() with base 10'')"
    using garbled_facts [THEN conjunct2, THEN conjunct1] garbled(3) by simp
  moreover have "validate_response_headers blank_length_png = Inr ()"
    using blank_facts [THEN conjunct2, THEN conjunct2] by simp
  moreover have "validate_response_headers root_png = Inr ()"
    using too_large_exactly_when_over_limit [of root_png "[]" "ValueError []",
        THEN conjunct2, THEN conjunct2] root by blast
  moreover have "validate_response_headers untyped
      \<noteq> Inl (ValueError ''File is too large (limit is 10MB).'')"
    using too_large_exactly_when_over_limit [of untyped "[]" "ValueError []",
        THEN conjunct2, THEN conjunct1] bare by blast
  ultimately show ?thesis by blast
qed

text \<open>
  C3 without the condition on the type does not hold: a response with status 200, type
  \<^verbatim>\<open>text/html\<close> and a declared length of 11000000 bytes, above the limit, fails with
  the invalid-file-type error and not with the size error, since the type is checked
  first.
\<close>

theorem too_large_counterexample:
  "raise_for_status html_page = Inr ()
   \<and> headers_get html_page ''Content-Length'' = Some ''11000000''
   \<and> py_int ''11000000'' = Inr 11000000
   \<and> (11000000 :: int) > 10 * 1024 * 1024
   \<and> validate_response_headers html_page
       = Inl (ValueError ''Invalid file type. Only image files are allowed.'')
   \<and> validate_response_headers html_page
       \<noteq> Inl (ValueError ''File is too large (limit is 10MB).'')"
  by code_simp

section \<open>Failures stay with their URL\<close>











section \<open>The Input Collector\<close>

lemma comma_pieces_not_Nil: "comma_pieces s \<noteq> []"
  by (induction s) (auto split: list.splits)

lemma py_split_Nil: "py_split sep [] = [[]]"
  by (simp add: py_split.simps)

lemma py_split_sep: "py_split sep (sep # cs) = [] # py_split sep cs"
  by (subst py_split.simps) simp

lemma py_split_last: "dropWhile (\<lambda>c. c \<noteq> sep) s = [] \<Longrightarrow> py_split sep s = [s]"
  by (simp only: py_split.simps [of sep s] list.case)

lemma py_split_next:
  "dropWhile (\<lambda>c. c \<noteq> sep) s = x # rest \<Longrightarrow>
   py_split sep s = takeWhile (\<lambda>c. c \<noteq> sep) s # py_split sep rest"
  by (simp only: py_split.simps [of sep s] list.case)

lemma py_split_other:
  assumes "c \<noteq> sep"
  shows "py_split sep (c # cs) = (case py_split sep cs of [] \<Rightarrow> [[c]] | p # ps \<Rightarrow> (c # p) # ps)"
proof (cases "dropWhile (\<lambda>c. c \<noteq> sep) cs")
  case Nil
  moreover from Nil assms have "dropWhile (\<lambda>c. c \<noteq> sep) (c # cs) = []" by simp
  ultimately show ?thesis by (simp only: py_split_last list.case)
next
  case (Cons x rest)
  moreover from Cons assms have "dropWhile (\<lambda>c. c \<noteq> sep) (c # cs) = x # rest" by simp
  ultimately show ?thesis using assms by (simp add: py_split_next)
qed

lemma py_split_comma_pieces: "py_split (CHR '','') s = comma_pieces s"
  by (induction s) (simp_all add: py_split_Nil py_split_sep py_split_other)

lemma dropWhile_snoc_not:
  "\<not> P x \<Longrightarrow> \<exists>ys. dropWhile P (xs @ [x]) = ys @ [x]"
  by (induction xs) auto

lemma dropWhile_both_ends:
  "dropWhile P (rev (dropWhile P (rev s))) = rev (dropWhile P (rev (dropWhile P s)))"
proof (cases "dropWhile P s")
  case Nil
  then have "\<forall>x\<in>set (rev s). P x" by (simp add: dropWhile_eq_Nil_conv)
  then have "dropWhile P (rev s) = []" by (simp only: dropWhile_eq_Nil_conv)
  then show ?thesis by (simp only: Nil rev.simps dropWhile.simps)
next
  case (Cons x t)
  then have nx: "\<not> P x" using hd_dropWhile [of P s] by simp
  define pre where "pre = takeWhile P s"
  have pre: "\<forall>y\<in>set pre. P y" by (auto simp: pre_def dest: set_takeWhileD)
  obtain ys where ys: "dropWhile P (rev t @ [x]) = ys @ [x]"
    using dropWhile_snoc_not [of P x "rev t"] nx by blast
  have s: "s = pre @ x # t"
    using takeWhile_dropWhile_id [of P s] by (simp only: Cons pre_def)
  have "dropWhile P (rev s) = dropWhile P ((rev t @ [x]) @ rev pre)"
    by (simp only: s rev_append rev.simps append_assoc append.simps)
  also have "\<dots> = dropWhile P (rev t @ [x]) @ rev pre"
    by (rule dropWhile_append1 [of x]) (simp_all add: nx)
  also have "\<dots> = (ys @ [x]) @ rev pre" by (simp only: ys)
  finally have "rev (dropWhile P (rev s)) = pre @ x # rev ys" by simp
  then have "dropWhile P (rev (dropWhile P (rev s))) = dropWhile P (pre @ x # rev ys)"
    by (simp only:)
  also have "\<dots> = dropWhile P (x # rev ys)"
    using pre by (simp only: dropWhile_append2)
  also have "\<dots> = x # rev ys" using nx by simp
  also have "\<dots> = rev (dropWhile P (rev (x # t)))" using ys by simp
  finally show ?thesis by (simp only: Cons)
qed

lemma trimmed_strip: "trimmed p = py_strip p"
  unfolding trimmed_def py_strip_def by (rule dropWhile_both_ends)

lemma join_comma_pieces: "join_commas (comma_pieces s) = s"
proof (induction s)
  case Nil
  show ?case by simp
next
  case (Cons c cs)
  obtain p ps where ps: "comma_pieces cs = p # ps"
    using comma_pieces_not_Nil [of cs] by (cases "comma_pieces cs") auto
  with Cons show ?case by (cases ps) auto
qed

lemma comma_pieces_no_comma: "p \<in> set (comma_pieces s) \<Longrightarrow> CHR '','' \<notin> set p"
  by (induction s arbitrary: p) (auto split: if_splits list.splits)

lemma trimmed_infix:
  "\<exists>l r. p = l @ trimmed p @ r \<and> (\<forall>c\<in>set l. py_isspace c) \<and> (\<forall>c\<in>set r. py_isspace c)"
proof -
  define q where "q = rev (dropWhile py_isspace (rev p))"
  define r where "r = rev (takeWhile py_isspace (rev p))"
  have "rev p = rev r @ rev q"
    using takeWhile_dropWhile_id [of py_isspace "rev p"] by (simp add: q_def r_def)
  then have p: "p = q @ r" by (metis rev_append rev_rev_ident)
  have r: "\<forall>c\<in>set r. py_isspace c"
    by (auto simp: r_def dest: set_takeWhileD)
  have q: "q = takeWhile py_isspace q @ trimmed p"
    by (simp add: trimmed_def q_def)
  have l: "\<forall>c\<in>set (takeWhile py_isspace q). py_isspace c"
    by (auto dest: set_takeWhileD)
  have "p = takeWhile py_isspace q @ trimmed p @ r"
    using p q by (metis append_assoc)
  with l r show ?thesis by blast
qed

lemma trimmed_ends:
  "trimmed p \<noteq> [] \<Longrightarrow> \<not> py_isspace (hd (trimmed p)) \<and> \<not> py_isspace (last (trimmed p))"
proof
  assume ne: "trimmed p \<noteq> []"
  then show "\<not> py_isspace (hd (trimmed p))"
    unfolding trimmed_def by (rule hd_dropWhile)
  from ne have "py_strip p \<noteq> []" by (simp add: trimmed_strip)
  then have "dropWhile py_isspace (rev (dropWhile py_isspace p)) \<noteq> []"
    by (simp add: py_strip_def)
  then have "\<not> py_isspace (hd (dropWhile py_isspace (rev (dropWhile py_isspace p))))"
    by (rule hd_dropWhile)
  moreover have "last (py_strip p) = hd (dropWhile py_isspace (rev (dropWhile py_isspace p)))"
    by (simp add: py_strip_def last_rev)
  ultimately show "\<not> py_isspace (last (trimmed p))" by (simp add: trimmed_strip)
qed

lemma comprehension_filter_map:
  "[f x. x \<leftarrow> xs, f x \<noteq> []] = filter (\<lambda>p. p \<noteq> []) (map f xs)"
  by (induction xs) simp_all

text \<open>
  C5: for every raw input line, the Input Collector returns the comma-delimited pieces
  of the line, each trimmed of its surrounding whitespace, without the pieces that are
  empty after trimming, in the order of the line and with repeated pieces kept.
\<close>

theorem collect_urls_contract:
  "collect_urls urls_input =
     filter (\<lambda>p. p \<noteq> []) (map trimmed (comma_pieces urls_input))"
proof -
  have "collect_urls urls_input =
      filter (\<lambda>p. p \<noteq> []) (map py_strip (py_split (CHR '','') urls_input))"
    unfolding collect_urls_def by (rule comprehension_filter_map)
  also have "map py_strip (py_split (CHR '','') urls_input) = map trimmed (comma_pieces urls_input)"
    by (simp add: py_split_comma_pieces trimmed_strip)
  finally show ?thesis .
qed

theorem collect_urls_contract_witness:
  "collect_urls '' http://a/x.png , ,http://b/,http://a/x.png ''
     = [''http://a/x.png'', ''http://b/'', ''http://a/x.png'']"
  using collect_urls_contract [of "'' http://a/x.png , ,http://b/,http://a/x.png ''"]
  by (simp add: trimmed_def py_isspace_def)

section \<open>An input without URLs\<close>

text \<open>
  C6: when no URL is left after the input line is parsed, \<^verbatim>\<open>main\<close> prints the
  no-valid-URLs line and returns: no request is made and the filesystem, the output
  directory included, stays as it was.
\<close>

theorem empty_input_stops_the_run:
  "collect_urls urls_input = [] \<longrightarrow>
     main env urls_input w
       = (Inr (), print NoValidUrls (print Prompt (print Tagline (print Welcome w))))
     \<and> requested (snd (main env urls_input w)) = requested w
     \<and> fs (snd (main env urls_input w)) = fs w
     \<and> console (snd (main env urls_input w)) = console w @ [Welcome, Tagline, Prompt, NoValidUrls]"
  by (simp add: main_def)

theorem empty_input_stops_the_run_witness:
  "main sample_env '' , ,'' empty_world
       = (Inr (), print NoValidUrls (print Prompt (print Tagline (print Welcome empty_world))))
   \<and> requested (snd (main sample_env '' , ,'' empty_world)) = []
   \<and> fs (snd (main sample_env '' , ,'' empty_world)) SAVE_DIR = None
   \<and> main sample_env '''' empty_world
       = (Inr (), print NoValidUrls (print Prompt (print Tagline (print Welcome empty_world))))"
proof -
  have "collect_urls '' , ,'' = []" "collect_urls '''' = []" by code_simp+
  then show ?thesis
    using empty_input_stops_the_run [of "'' , ,''" sample_env empty_world]
      empty_input_stops_the_run [of "''''" sample_env empty_world]
    by (simp add: empty_world_def)
qed

section \<open>The Destination Resolver\<close>

lemma py_split_not_Nil: "py_split sep s \<noteq> []"
  by (subst py_split.simps) (simp split: list.splits)

lemma takeWhile_before_failing:
  "\<not> P y \<Longrightarrow> takeWhile P (xs @ y # ys) = takeWhile P xs"
  by (induction xs) simp_all

lemma last_py_split:
  "last (py_split sep s) = rev (takeWhile (\<lambda>c. c \<noteq> sep) (rev s))"
proof (induction sep s rule: py_split.induct)
  case (1 sep s)
  show ?case
  proof (cases "dropWhile (\<lambda>c. c \<noteq> sep) s")
    case Nil
    then have all: "\<forall>c\<in>set (rev s). c \<noteq> sep" by (simp add: dropWhile_eq_Nil_conv)
    have "takeWhile (\<lambda>c. c \<noteq> sep) (rev s) = rev s"
      using all by (simp only: takeWhile_eq_all_conv)
    then have "rev (takeWhile (\<lambda>c. c \<noteq> sep) (rev s)) = s" by (simp only: rev_rev_ident)
    moreover have "py_split sep s = [s]" using Nil by (rule py_split_last)
    moreover have "last [s] = s" by simp
    ultimately show ?thesis by (simp only:)
  next
    case (Cons x rest)
    then have x: "x = sep" using hd_dropWhile [of "\<lambda>c. c \<noteq> sep" s] by simp
    have s: "s = takeWhile (\<lambda>c. c \<noteq> sep) s @ sep # rest"
      using takeWhile_dropWhile_id [of "\<lambda>c. c \<noteq> sep" s] Cons x by simp
    have "rev s = rev rest @ sep # rev (takeWhile (\<lambda>c. c \<noteq> sep) s)"
      by (subst s) simp
    then have "takeWhile (\<lambda>c. c \<noteq> sep) (rev s) = takeWhile (\<lambda>c. c \<noteq> sep) (rev rest)"
      by (simp only: takeWhile_before_failing [of "\<lambda>c. c \<noteq> sep" sep, simplified])
    moreover have "last (py_split sep s) = last (py_split sep rest)"
      using py_split_next [OF Cons] py_split_not_Nil [of sep rest] by simp
    moreover have "last (py_split sep rest) = rev (takeWhile (\<lambda>c. c \<noteq> sep) (rev rest))"
      using "1.IH" [OF Cons] .
    ultimately show ?thesis by simp
  qed
qed

lemma basename_final_segment: "basename path = final_segment path"
  by (simp add: basename_def final_segment_def last_py_split)

lemma basename_no_slash: "CHR ''/'' \<notin> set (basename path)"
proof
  assume "CHR ''/'' \<in> set (basename path)"
  then have "CHR ''/'' \<in> set (takeWhile (\<lambda>c. c \<noteq> CHR ''/'') (rev path))"
    by (simp add: basename_def)
  then show False by (auto dest: set_takeWhileD)
qed

lemma os_path_join_plain:
  assumes "filename \<noteq> []" "hd filename \<noteq> CHR ''/''"
  shows "os_path_join SAVE_DIR filename = SAVE_DIR @ ''/'' @ filename"
proof -
  from assms have "\<not> py_startswith filename ''/''"
    by (cases filename) (simp_all add: py_startswith_def)
  then show ?thesis by (simp add: os_path_join_def SAVE_DIR_def)
qed

lemma download_image_fs_elsewhere:
  assumes "get_filename_from_url env url = Inr filename"
    and "p \<noteq> os_path_join SAVE_DIR filename"
  shows "fs (snd (download_image env url w)) p = fs w p"
proof -
  have "fs w2 p = fs w p"
    if "open_wb env (os_path_join SAVE_DIR filename) (w\<lparr>requested := requested w @ [url]\<rparr>) = (r1, w1)"
      "write_chunks env (os_path_join SAVE_DIR filename) cs w1 = (r2, w2)" for r1 w1 cs r2 w2
    using open_wb_effect(3) [OF that(1), of p] write_chunks_effect(3) [OF that(2), of p] assms(2)
    by simp
  moreover have "fs w1 p = fs w p"
    if "open_wb env (os_path_join SAVE_DIR filename) (w\<lparr>requested := requested w @ [url]\<rparr>) = (r1, w1)"
    for r1 w1
    using open_wb_effect(3) [OF that, of p] assms(2) by simp
  ultimately show ?thesis
    using assms(1)
    by (auto simp: download_image_fs download_image_try_def Let_def
        split: sum.splits prod.splits option.splits)
qed

text \<open>
  C7: when the path of the URL has a non-empty final segment, the filename is exactly
  that segment, the destination path is the output directory joined with it, that is
  \<^verbatim>\<open>Fetched_Images/\<close> followed by the segment, and processing the URL changes no other
  path of the filesystem.
\<close>

theorem filename_is_final_segment:
  "urlparse_path env url = Inr path \<and> final_segment path \<noteq> [] \<longrightarrow>
     get_filename_from_url env url = Inr (final_segment path)
     \<and> os_path_join SAVE_DIR (final_segment path) = ''Fetched_Images/'' @ final_segment path
     \<and> (\<forall>p. p \<noteq> ''Fetched_Images/'' @ final_segment path
           \<longrightarrow> fs (snd (download_image env url w)) p = fs w p)"
proof
  assume a: "urlparse_path env url = Inr path \<and> final_segment path \<noteq> []"
  then have name: "get_filename_from_url env url = Inr (final_segment path)"
    by (simp add: get_filename_from_url_def basename_final_segment)
  have "hd (final_segment path) \<in> set (final_segment path)"
    using a by (intro hd_in_set) simp
  moreover have "CHR ''/'' \<notin> set (final_segment path)"
    using basename_no_slash [of path] by (simp add: basename_final_segment)
  ultimately have "hd (final_segment path) \<noteq> CHR ''/''" by metis
  with a have join: "os_path_join SAVE_DIR (final_segment path)
      = ''Fetched_Images/'' @ final_segment path"
    using os_path_join_plain [of "final_segment path"] by (simp add: SAVE_DIR_def)
  show "get_filename_from_url env url = Inr (final_segment path)
     \<and> os_path_join SAVE_DIR (final_segment path) = ''Fetched_Images/'' @ final_segment path
     \<and> (\<forall>p. p \<noteq> ''Fetched_Images/'' @ final_segment path
           \<longrightarrow> fs (snd (download_image env url w)) p = fs w p)"
    using name join download_image_fs_elsewhere [OF name, of _ w] by simp
qed

theorem filename_is_final_segment_witness:
  "get_filename_from_url sample_env ''http://example.com/pics/cat.jpg?size=2'' = Inr ''cat.jpg''
   \<and> os_path_join SAVE_DIR ''cat.jpg'' = ''Fetched_Images/cat.jpg''
   \<and> fs (snd (download_image sample_env ''http://example.com/pics/cat.jpg?size=2'' cat_world))
        ''Fetched_Images'' = Some Dir"
proof -
  have path: "urlparse_path sample_env ''http://example.com/pics/cat.jpg?size=2''
      = Inr ''/pics/cat.jpg''"
    by (simp add: sample_env_def sample_path_def)
  have seg: "final_segment ''/pics/cat.jpg'' = ''cat.jpg''" by code_simp
  have dir: "fs cat_world ''Fetched_Images'' = Some Dir" by (simp add: cat_world_def)
  note facts = filename_is_final_segment [of sample_env "''http://example.com/pics/cat.jpg?size=2''"
      "''/pics/cat.jpg''" cat_world, rule_format]
  have "get_filename_from_url sample_env ''http://example.com/pics/cat.jpg?size=2''
      = Inr ''cat.jpg''"
    using facts path seg by simp
  moreover have "os_path_join SAVE_DIR ''cat.jpg'' = ''Fetched_Images/cat.jpg''"
    using facts path seg by simp
  moreover have "fs (snd (download_image sample_env ''http://example.com/pics/cat.jpg?size=2''
      cat_world)) ''Fetched_Images'' = fs cat_world ''Fetched_Images''"
    using facts path seg by simp
  ultimately show ?thesis using dir by simp
qed

subsection \<open>The fallback filename\<close>

lemma hex_digit_below_16: "\<forall>n<16. hex_digit n \<in> set ''0123456789abcdef''"
  by code_simp

lemma hex_byte_digits: "set (hex_byte b) \<subseteq> set ''0123456789abcdef''"
proof -
  define H where "H = set ''0123456789abcdef''"
  have "unat b < 256" using unsigned_less [of b] by simp
  then have "unat b div 16 < 16" "unat b mod 16 < 16" by simp_all
  then have "hex_digit (unat b div 16) \<in> H" "hex_digit (unat b mod 16) \<in> H"
    using hex_digit_below_16 unfolding H_def by blast+
  then have "set (hex_byte b) \<subseteq> H" by (simp add: hex_byte_def)
  then show ?thesis unfolding H_def .
qed

lemma length_hex_byte: "length (hex_byte b) = 2"
  by (simp add: hex_byte_def)

lemma length_word_bytes: "length (word_bytes w) = 4"
  by (simp add: word_bytes_def)

lemma length_concat_hex: "length (concat (map hex_byte bs)) = 2 * length bs"
  by (induction bs) (simp_all add: length_hex_byte)

lemma md5_hexdigest_length: "length (md5_hexdigest m) = 32"
  by (simp add: md5_hexdigest_def length_concat_hex length_word_bytes split: prod.splits)

lemma md5_hexdigest_digits: "set (md5_hexdigest m) \<subseteq> set ''0123456789abcdef''"
proof -
  define H where "H = set ''0123456789abcdef''"
  have byte: "set (hex_byte b) \<subseteq> H" for b
    using hex_byte_digits [of b] unfolding H_def .
  have digits: "set (concat (map hex_byte bs)) \<subseteq> H" for bs
    using byte by (induction bs) simp_all
  obtain a b c d where st: "foldl md5_block (0x67452301, 0xefcdab89, 0x98badcfe, 0x10325476)
      (md5_blocks (md5_words (md5_pad m))) = (a, b, c, d)"
    by (metis prod_cases4)
  have "md5_hexdigest m = concat (map hex_byte (concat (map word_bytes [a, b, c, d])))"
    unfolding md5_hexdigest_def st by simp
  then have "set (md5_hexdigest m) \<subseteq> H"
    using digits [of "concat (map word_bytes [a, b, c, d])"] by (simp only:)
  then show ?thesis unfolding H_def .
qed

text \<open>
  C8: when the final segment of the URL's path is empty, the filename is the MD5 digest
  of the URL string, 32 hexadecimal digits, followed by \<^verbatim>\<open>.jpg\<close>. It depends on the URL
  alone, so the same URL gives the same filename in every run; filename and destination
  path, \<^verbatim>\<open>Fetched_Images/\<close> followed by the filename, are not empty.
\<close>

theorem filename_falls_back_to_hash:
  "urlparse_path env url = Inr path \<and> final_segment path = [] \<longrightarrow>
     get_filename_from_url env url = Inr (md5_hexdigest (utf8_encode url) @ ''.jpg'')
     \<and> length (md5_hexdigest (utf8_encode url)) = 32
     \<and> set (md5_hexdigest (utf8_encode url)) \<subseteq> set ''0123456789abcdef''
     \<and> md5_hexdigest (utf8_encode url) @ ''.jpg'' \<noteq> []
     \<and> os_path_join SAVE_DIR (md5_hexdigest (utf8_encode url) @ ''.jpg'')
         = ''Fetched_Images/'' @ md5_hexdigest (utf8_encode url) @ ''.jpg''
     \<and> (urlparse_path env' url = Inr path' \<and> final_segment path' = []
          \<longrightarrow> get_filename_from_url env' url = get_filename_from_url env url)"
proof
  assume a: "urlparse_path env url = Inr path \<and> final_segment path = []"
  define digest where "digest = md5_hexdigest (utf8_encode url)"
  have name: "get_filename_from_url env url = Inr (digest @ ''.jpg'')"
    using a by (simp add: get_filename_from_url_def basename_final_segment digest_def)
  have len: "length digest = 32" by (simp add: digest_def md5_hexdigest_length)
  have digits: "set digest \<subseteq> set ''0123456789abcdef''"
    unfolding digest_def by (rule md5_hexdigest_digits)
  from len have ne: "digest \<noteq> []" by auto
  then have "hd digest \<in> set ''0123456789abcdef''" using digits hd_in_set by blast
  then have "hd digest \<noteq> CHR ''/''" by auto
  with ne have "hd (digest @ ''.jpg'') \<noteq> CHR ''/''" by simp
  then have join: "os_path_join SAVE_DIR (digest @ ''.jpg'') = ''Fetched_Images/'' @ digest @ ''.jpg''"
    using os_path_join_plain [of "digest @ ''.jpg''"] by (simp add: SAVE_DIR_def)
  have same: "get_filename_from_url env' url = get_filename_from_url env url"
    if "urlparse_path env' url = Inr path' \<and> final_segment path' = []"
    using that name by (simp add: get_filename_from_url_def basename_final_segment digest_def)
  show "get_filename_from_url env url = Inr (md5_hexdigest (utf8_encode url) @ ''.jpg'')
     \<and> length (md5_hexdigest (utf8_encode url)) = 32
     \<and> set (md5_hexdigest (utf8_encode url)) \<subseteq> set ''0123456789abcdef''
     \<and> md5_hexdigest (utf8_encode url) @ ''.jpg'' \<noteq> []
     \<and> os_path_join SAVE_DIR (md5_hexdigest (utf8_encode url) @ ''.jpg'')
         = ''Fetched_Images/'' @ md5_hexdigest (utf8_encode url) @ ''.jpg''
     \<and> (urlparse_path env' url = Inr path' \<and> final_segment path' = []
          \<longrightarrow> get_filename_from_url env' url = get_filename_from_url env url)"
    using name len digits join same unfolding digest_def by blast
qed

theorem filename_falls_back_to_hash_witness:
  "get_filename_from_url sample_env ''http://example.com/''
     = Inr ''a6bf1757fff057f266b697df9cf176fd.jpg''
   \<and> os_path_join SAVE_DIR ''a6bf1757fff057f266b697df9cf176fd.jpg''
     = ''Fetched_Images/a6bf1757fff057f266b697df9cf176fd.jpg''
   \<and> get_filename_from_url full_disk_env ''http://example.com/''
     = get_filename_from_url sample_env ''http://example.com/''"
proof -
  have path: "urlparse_path sample_env ''http://example.com/'' = Inr ''/''"
    "urlparse_path full_disk_env ''http://example.com/'' = Inr ''/''"
    by (simp_all add: sample_env_def full_disk_env_def sample_path_def)
  have seg: "final_segment ''/'' = []" by code_simp
  have md5: "md5_hexdigest (utf8_encode ''http://example.com/'')
      = ''a6bf1757fff057f266b697df9cf176fd''" by code_simp
  note facts = filename_falls_back_to_hash [of sample_env "''http://example.com/''" "''/''"
      full_disk_env "''/''", rule_format]
  have "get_filename_from_url sample_env ''http://example.com/''
     = Inr ''a6bf1757fff057f266b697df9cf176fd.jpg''"
    using facts path seg md5 by simp
  moreover have "os_path_join SAVE_DIR ''a6bf1757fff057f266b697df9cf176fd.jpg''
     = ''Fetched_Images/a6bf1757fff057f266b697df9cf176fd.jpg''"
    using facts path seg md5 by simp
  moreover have "get_filename_from_url full_disk_env ''http://example.com/''
     = get_filename_from_url sample_env ''http://example.com/''"
    using facts path seg by simp
  ultimately show ?thesis by simp
qed

section \<open>Writing comes after validation\<close>

text \<open>
  C9: processing one URL changes the filesystem only if the response was fetched with a
  successful status and its headers passed the Safety Validator; no byte of a body is
  written for a response that was not validated first.
\<close>

theorem write_only_after_validation:
  "fs (snd (download_image env url w)) \<noteq> fs w \<longrightarrow>
     (\<exists>response. http_get env (requested w) url = Inr response
        \<and> raise_for_status response = Inr ()
        \<and> validate_response_headers response = Inr ())"
  using download_image_try_fs_changed [of env url w]
  by (simp add: download_image_fs)

theorem write_only_after_validation_witness:
  "fs (snd (download_image sample_env ''http://example.com/cat.jpg'' ready_world))
       ''Fetched_Images/cat.jpg'' = Some (File [0xFF, 0xD8, 0xFF, 0xD9, 0x0A])
   \<and> fs ready_world ''Fetched_Images/cat.jpg'' = None
   \<and> validate_response_headers cat_jpg = Inr ()"
proof -
  have new: "fs (snd (download_image sample_env ''http://example.com/cat.jpg'' ready_world))
       ''Fetched_Images/cat.jpg'' = Some (File [0xFF, 0xD8, 0xFF, 0xD9, 0x0A])"
    by code_simp
  have old: "fs ready_world ''Fetched_Images/cat.jpg'' = None"
    by (simp add: ready_world_def)
  from new old have "fs (snd (download_image sample_env ''http://example.com/cat.jpg'' ready_world))
      \<noteq> fs ready_world" by (metis option.distinct(1))
  with write_only_after_validation [of sample_env "''http://example.com/cat.jpg''" ready_world]
  obtain response where
    "http_get sample_env (requested ready_world) ''http://example.com/cat.jpg'' = Inr response"
    "validate_response_headers response = Inr ()" by blast
  moreover have "http_get sample_env (requested ready_world) ''http://example.com/cat.jpg''
      = Inr cat_jpg"
    by (simp add: sample_env_def sample_get_def)
  ultimately have "validate_response_headers cat_jpg = Inr ()" by simp
  with new old show ?thesis by simp
qed

section \<open>A response without a content type\<close>

text \<open>
  C10: a response without any Content-Type header has the empty string as its declared
  type, so the Safety Validator fails with the invalid-file-type error; a URL answered
  that way with a successful status is reported as skipped with this error, and no file
  is created for it.
\<close>

theorem missing_content_type_is_rejected:
  "headers_get response ''Content-Type'' = None \<longrightarrow>
     content_type response = []
     \<and> validate_response_headers response
         = Inl (ValueError ''Invalid file type. Only image files are allowed.'')
     \<and> (http_get env (requested w) url = Inr response \<and> raise_for_status response = Inr ()
        \<longrightarrow> download_image env url w =
              (Inr (), print (Skipping url ''Invalid file type. Only image files are allowed.'')
                         (w\<lparr>requested := requested w @ [url]\<rparr>))
            \<and> fs (snd (download_image env url w)) = fs w)"
proof
  assume none: "headers_get response ''Content-Type'' = None"
  then have empty: "content_type response = []"
    by (simp add: content_type_def py_lower_def)
  then have "\<not> py_startswith (content_type response) ''image/''"
    by (simp add: py_startswith_def)
  then have invalid: "validate_response_headers response
         = Inl (ValueError ''Invalid file type. Only image files are allowed.'')"
    by (rule validate_not_image)
  show "content_type response = []
     \<and> validate_response_headers response
         = Inl (ValueError ''Invalid file type. Only image files are allowed.'')
     \<and> (http_get env (requested w) url = Inr response \<and> raise_for_status response = Inr ()
        \<longrightarrow> download_image env url w =
              (Inr (), print (Skipping url ''Invalid file type. Only image files are allowed.'')
                         (w\<lparr>requested := requested w @ [url]\<rparr>))
            \<and> fs (snd (download_image env url w)) = fs w)"
    using empty invalid download_image_invalid [of env w url response, OF _ _ invalid]
      download_image_not_validated [of env w url response, OF _ invalid]
    by blast
qed

theorem missing_content_type_is_rejected_witness:
  "headers_get untyped ''Content-Type'' = None
   \<and> validate_response_headers untyped
       = Inl (ValueError ''Invalid file type. Only image files are allowed.'')
   \<and> download_image sample_env ''http://example.com/plain'' empty_world =
       (Inr (), print (Skipping ''http://example.com/plain''
                         ''Invalid file type. Only image files are allowed.'')
                  (empty_world\<lparr>requested := requested empty_world @ [''http://example.com/plain'']\<rparr>))
   \<and> fs (snd (download_image sample_env ''http://example.com/plain'' empty_world))
       = fs empty_world"
proof -
  have none: "headers_get untyped ''Content-Type'' = None"
    by (simp add: headers_get_def untyped_def)
  have get: "http_get sample_env (requested empty_world) ''http://example.com/plain''
      = Inr untyped"
    by (simp add: sample_env_def sample_get_def)
  have status: "raise_for_status untyped = Inr ()"
    by (simp add: raise_for_status_def untyped_def)
  note facts = missing_content_type_is_rejected [of untyped sample_env empty_world
      "''http://example.com/plain''", rule_format, OF none]
  have "validate_response_headers untyped
       = Inl (ValueError ''Invalid file type. Only image files are allowed.'')"
    using facts by blast
  moreover have "download_image sample_env ''http://example.com/plain'' empty_world =
       (Inr (), print (Skipping ''http://example.com/plain''
                         ''Invalid file type. Only image files are allowed.'')
                  (empty_world\<lparr>requested := requested empty_world @ [''http://example.com/plain'']\<rparr>))
   \<and> fs (snd (download_image sample_env ''http://example.com/plain'' empty_world))
       = fs empty_world"
    using facts get status by blast
  ultimately show ?thesis using none by blast
qed

section \<open>A sample run\<close>

text \<open>
  A run that starts without the output directory. The same image twice, then a page
  that is not an image, then a URL whose path ends in \<^verbatim>\<open>/.\<close>: the first download writes
  \<^verbatim>\<open>cat.jpg\<close>, the second is skipped as a duplicate, the third is refused, and the
  fourth is skipped as a duplicate as well, since \<^verbatim>\<open>Fetched_Images/.\<close> is the output
  directory itself. The output directory holds the one file.
\<close>

lemma sample_run_console:
  "console (snd (main sample_env
      ''http://example.com/cat.jpg, http://example.com/cat.jpg, http://example.com/page.html, http://example.com/pics/.''
      empty_world))
   = [Welcome, Tagline, Prompt, FetchingImages,
      SuccessfullyFetched ''cat.jpg'', ImageSavedTo ''Fetched_Images/cat.jpg'',
      SkippingDuplicate ''cat.jpg'',
      Skipping ''http://example.com/page.html''
        ''Invalid file type. Only image files are allowed.'',
      SkippingDuplicate ''.'',
      ConnectionStrengthened]"
  by code_simp

lemma sample_run_files:
  "map (entry_at (fs (snd (main sample_env
      ''http://example.com/cat.jpg, http://example.com/cat.jpg, http://example.com/page.html, http://example.com/pics/.''
      empty_world))))
     [''Fetched_Images'', ''Fetched_Images/cat.jpg'', ''Fetched_Images/page.html'',
      ''Fetched_Images/.'']
   = [Some Dir, Some (File [0xFF, 0xD8, 0xFF, 0xD9, 0x0A]), None, Some Dir]"
  by code_simp

text \<open>
  Without the output directory nothing can be opened below it: a download that is tried
  before \<^verbatim>\<open>create_save_directory\<close> has run fails in \<^verbatim>\<open>open\<close>, is reported as an
  unexpected error, and writes nothing.
\<close>

lemma download_without_directory:
  "console (snd (download_image sample_env ''http://example.com/cat.jpg'' empty_world))
     = [UnexpectedError ''http://example.com/cat.jpg'' ''FileNotFoundError'']
   \<and> fs (snd (download_image sample_env ''http://example.com/cat.jpg'' empty_world))
       ''Fetched_Images/cat.jpg'' = None"
  by code_simp

end
